theory Spec2Isabelle
  imports Complex_Main
begin

section \<open>The T1D patient of simglucose (simglucose/patient/t1dpatient.py)\<close>

text \<open>
  Python floats (numpy float64) are modelled by the type \<open>real\<close>: rounding, infinities
  and NaN are outside the model, except for the meal buffer, which has a second model
  with the rounding of float64 below. A numpy array is a \<open>real list\<close>; reading an index
  that is out of range raises \<open>IndexError\<close> in the source and is a branch of the model.
  A division by a zero parameter is no exception in numpy (the quotient is infinite or
  NaN) and is 0 in HOL; the statements about \<open>kgut\<close> assume the divisors non-zero, and
  the other statements hold whatever the value of such a quotient is.
\<close>

subsection \<open>Data\<close>

datatype error = IndexError | RuntimeError

text \<open>\<open>Action = namedtuple("patient_action", ['CHO', 'insulin'])\<close>\<close>

record action =
  CHO :: real
  insulin :: real

text \<open>\<open>Observation = namedtuple("observation", ['Gsub'])\<close>\<close>

record observation =
  Gsub :: real

text \<open>
  The parameter row \<open>params\<close> (a pandas sequence): the fields that the class reads,
  under the names of the source.
\<close>

record params =
  Name :: string
  BW :: real
  u2ss :: real
  kmax :: real
  kmin :: real
  b :: real
  d :: real
  kabs :: real
  f :: real
  kp1 :: real
  kp2 :: real
  kp3 :: real
  kcounter :: real
  Fsnc :: real
  ke1 :: real
  ke2 :: real
  k1 :: real
  k2 :: real
  Vg :: real
  Gth :: real
  Gb :: real
  r1 :: real
  r2 :: real
  r3 :: real
  Vm0 :: real
  Vmx :: real
  Km0 :: real
  m1 :: real
  m2 :: real
  m4 :: real
  m30 :: real
  ka1 :: real
  ka2 :: real
  Vi :: real
  p2u :: real
  Ib :: real
  ki :: real
  kd :: real
  ksc :: real
  kGSRd :: real
  kGSRs :: real
  k01g :: real
  kXGn :: real
  Gnb :: real
  Ith :: real
  SRb :: real
  SQgluc_k1 :: real
  SQgluc_kc1 :: real
  SQgluc_k2 :: real

text \<open>
  The integrator object \<open>scipy.integrate.ode\<close>: its current solution \<open>y\<close>, its time
  \<open>t\<close>, and the flag that \<open>successful()\<close> reads.
\<close>

record odesolver =
  y :: "real list"
  t :: real
  success :: bool

text \<open>
  The attributes of a \<open>T1DPatient\<close> object, the leading underscores dropped;
  \<open>_params\<close> and \<open>_odesolver\<close> are \<open>params_of\<close> and \<open>odesolver_of\<close>, beside the record
  types of these names.
\<close>

record patient =
  params_of :: params
  init_state :: "real list"
  t0 :: real
  last_Qsto :: real
  last_foodtaken :: real
  name :: string
  odesolver_of :: odesolver
  last_action :: action
  is_eating :: bool
  planned_meal :: real

definition SAMPLE_TIME :: real where
  "SAMPLE_TIME = 1"

definition EAT_RATE :: real where
  "EAT_RATE = 5"

subsection \<open>The meal buffer\<close>

text \<open>
  \<open>_announce_meal(self, meal)\<close>: returns the amount to eat now and the object with its
  backlog updated. The arithmetic here is exact.
\<close>

definition announce_meal :: "patient \<Rightarrow> real \<Rightarrow> real \<times> patient" where
  "announce_meal s meal =
     (let s1 = s\<lparr>planned_meal := planned_meal s + meal\<rparr>
      in if planned_meal s1 > 0
         then (let to_eat = min EAT_RATE (planned_meal s1);
                   s2 = s1\<lparr>planned_meal := planned_meal s1 - to_eat\<rparr>;
                   s3 = s2\<lparr>planned_meal := max 0 (planned_meal s2)\<rparr>
               in (to_eat, s3))
         else (0, s1))"

subsection \<open>The right-hand side of the differential equations\<close>

text \<open>
  The gastric emptying rate \<open>kgut\<close> of \<open>model\<close> (lines 130 to 136), as a function of
  the parameters, of \<open>qsto = x[0] + x[1]\<close> and of \<open>Dbar = last_Qsto + last_foodtaken\<close>.
\<close>

definition kgut :: "params \<Rightarrow> real \<Rightarrow> real \<Rightarrow> real" where
  "kgut p qsto Dbar =
     (if Dbar > 0
      then (let aa = 5 / 2 / (1 - b p) / Dbar;
                cc = 5 / 2 / d p / Dbar
            in kmin p + (kmax p - kmin p) / 2 *
                 (tanh (aa * (qsto - b p * Dbar)) - tanh (cc * (qsto - d p * Dbar)) + 2))
      else kmax p)"

text \<open>Glucose production \<open>EGPt\<close> (line 147) and renal excretion \<open>Et\<close> (lines 152 to 155).\<close>

definition EGPt :: "params \<Rightarrow> real list \<Rightarrow> real" where
  "EGPt p x = kp1 p - kp2 p * x ! 3 - kp3 p * x ! 8 + kcounter p * x ! 14"

definition Et :: "params \<Rightarrow> real list \<Rightarrow> real" where
  "Et p x = (if x ! 3 > ke2 p then ke1 p * (x ! 3 - ke2 p) else 0)"

text \<open>
  The glucose risk term (lines 162 to 171); \<open>np.log\<close> is \<open>ln\<close> and the float power
  \<open>**\<close> is \<open>powr\<close>.
\<close>

definition risk :: "params \<Rightarrow> real list \<Rightarrow> real" where
  "risk p x =
     (let Gt = x ! 3 / Vg p;
          fG = (if Gt < Gth p then ln ((Gth p / Gb p) powr r1 p)
                else ln ((Gt / Gb p) powr r1 p))
      in if Gt > Gb p then 0 else 10 * fG\<^sup>2)"

text \<open>
  The assignments of the body of \<open>model\<close>, in the order of the source. For every index
  \<open>i\<close> the name \<open>raw_i\<close> is the value first assigned to \<open>dxdt[i]\<close>, and \<open>dxdt_i\<close> the
  value after the line \<open>dxdt[i] = (x[i] >= 0) * dxdt[i]\<close>, where the source has such a
  line. The result is the pair of the list of the raw values and the array returned.
\<close>

definition model_body ::
  "real list \<Rightarrow> action \<Rightarrow> params \<Rightarrow> real \<Rightarrow> real \<Rightarrow> real list \<times> real list" where
  "model_body x act p lastQ lastF =
     (let d' = CHO act * 1000;
          insulin' = insulin act * 6000 / BW p;
          basal = u2ss p * BW p / 6000;
          qsto = x ! 0 + x ! 1;
          Dbar = lastQ + lastF;
          raw_0 = - kmax p * x ! 0 + d';
          kgut' = kgut p qsto Dbar;
          raw_1 = kmax p * x ! 0 - x ! 1 * kgut';
          raw_2 = kgut' * x ! 1 - kabs p * x ! 2;
          Rat = f p * kabs p * x ! 2 / BW p;
          EGPt' = EGPt p x;
          Uiit = Fsnc p;
          Et' = Et p x;
          raw_3 = max EGPt' 0 + Rat - Uiit - Et' - k1 p * x ! 3 + k2 p * x ! 4;
          dxdt_3 = of_bool (x ! 3 \<ge> 0) * raw_3;
          Gt = x ! 3 / Vg p;
          risk' = risk p x;
          Vmt = Vm0 p + Vmx p * x ! 6;
          Kmt = Km0 p;
          Uidt = Vmt * (1 + r3 p * risk') * x ! 4 / (Kmt + x ! 4);
          raw_4 = - Uidt + k1 p * x ! 3 - k2 p * x ! 4;
          dxdt_4 = of_bool (x ! 4 \<ge> 0) * raw_4;
          raw_5 = - (m2 p + m4 p) * x ! 5 + m1 p * x ! 9 + ka1 p * x ! 10 + ka2 p * x ! 11;
          It = x ! 5 / Vi p;
          dxdt_5 = of_bool (x ! 5 \<ge> 0) * raw_5;
          raw_6 = - p2u p * x ! 6 + p2u p * (It - Ib p);
          raw_7 = - ki p * (x ! 7 - It);
          raw_8 = - ki p * (x ! 8 - x ! 7);
          raw_9 = - (m1 p + m30 p) * x ! 9 + m2 p * x ! 5;
          dxdt_9 = of_bool (x ! 9 \<ge> 0) * raw_9;
          raw_10 = insulin' - (ka1 p + kd p) * x ! 10;
          dxdt_10 = of_bool (x ! 10 \<ge> 0) * raw_10;
          raw_11 = kd p * x ! 10 - ka2 p * x ! 11;
          dxdt_11 = of_bool (x ! 11 \<ge> 0) * raw_11;
          raw_12 = - ksc p * x ! 12 + ksc p * x ! 3;
          dxdt_12 = of_bool (x ! 12 \<ge> 0) * raw_12;
          SRd = kGSRd p * max (- dxdt_3 / Vg p) 0;
          SRt = x ! 15 + SRd;
          raw_13 = - k01g p * x ! 13 + SRt;
          dxdt_13 = of_bool (x ! 13 \<ge> 0) * raw_13;
          raw_14 = - kXGn p * x ! 14 + kXGn p * max (x ! 13 - Gnb p) 0;
          raw_15 = (if It \<ge> Ith p
                    then - r2 p * (x ! 15 -
                           max (kGSRs p * (Gth p - Gt) / (It - Ith p + 1) + SRb p) 0)
                    else - r2 p * (x ! 15 - max (kGSRs p * (Gth p - Gt) + SRb p) 0));
          dxdt_15 = of_bool (x ! 15 \<ge> 0) * raw_15;
          raw_16 = - (SQgluc_k1 p + SQgluc_kc1 p) * x ! 16;
          dxdt_16 = of_bool (x ! 16 \<ge> 0) * raw_16;
          raw_17 = SQgluc_k1 p * x ! 16 - SQgluc_k2 p * x ! 17;
          dxdt_17 = of_bool (x ! 17 \<ge> 0) * raw_17
      in ([raw_0, raw_1, raw_2, raw_3, raw_4, raw_5, raw_6, raw_7, raw_8, raw_9,
           raw_10, raw_11, raw_12, raw_13, raw_14, raw_15, raw_16, raw_17],
          [raw_0, raw_1, raw_2, dxdt_3, dxdt_4, dxdt_5, raw_6, raw_7, raw_8, dxdt_9,
           dxdt_10, dxdt_11, dxdt_12, dxdt_13, raw_14, dxdt_15, dxdt_16, dxdt_17]))"

text \<open>
  \<open>model(t, x, action, params, last_Qsto, last_foodtaken)\<close>: the array \<open>dxdt\<close> returned,
  or \<open>IndexError\<close> when \<open>x\<close> has fewer than the 18 entries that the body reads.
\<close>

definition model ::
  "real \<Rightarrow> real list \<Rightarrow> action \<Rightarrow> params \<Rightarrow> real \<Rightarrow> real \<Rightarrow> error + real list" where
  "model tm x act p lastQ lastF =
     (if length x < 18 then Inl IndexError
      else Inr (snd (model_body x act p lastQ lastF)))"

text \<open>
  The raw derivatives: the values first assigned to the entries of \<open>dxdt\<close>, before any
  multiplication by an indicator.
\<close>

definition raw_dxdt :: "real list \<Rightarrow> action \<Rightarrow> params \<Rightarrow> real \<Rightarrow> real \<Rightarrow> real list" where
  "raw_dxdt x act p lastQ lastF = fst (model_body x act p lastQ lastF)"

subsection \<open>The simulator\<close>

text \<open>
  \<open>reset(self)\<close>. A call returns the exception raised, if any, and the object as the call
  leaves it. A fresh \<open>ode\<close> object with its initial value set reports success.
\<close>

definition reset :: "patient \<Rightarrow> error option \<times> patient" where
  "reset s =
     (if length (init_state s) < 2 then (Some IndexError, s)
      else (None,
            s\<lparr>last_Qsto := init_state s ! 0 + init_state s ! 1,
              last_foodtaken := 0,
              name := Name (params_of s),
              odesolver_of := \<lparr>y = init_state s, t = t0 s, success = True\<rparr>,
              last_action := \<lparr>CHO = 0, insulin = 0\<rparr>,
              is_eating := False,
              planned_meal := 0\<rparr>))"

text \<open>
  \<open>step(self, action)\<close>, in two parts. The first part is the meal bookkeeping, lines 78
  to 103: it ends with \<open>self._last_action = action\<close>, or with the \<open>IndexError\<close> of
  \<open>self.state[0] + self.state[1]\<close> when the solution has fewer than two entries.
\<close>

definition step_meal :: "patient \<Rightarrow> action \<Rightarrow> error option \<times> patient" where
  "step_meal s act0 =
     (let (to_eat, s1) = announce_meal s (CHO act0);
          act = act0\<lparr>CHO := to_eat\<rparr>;
          starts = (CHO act > 0 \<and> CHO (last_action s1) \<le> 0)
      in if starts \<and> length (y (odesolver_of s1)) < 2 then (Some IndexError, s1)
         else
           (let s2 = (if starts
                      then s1\<lparr>last_Qsto := y (odesolver_of s1) ! 0 + y (odesolver_of s1) ! 1,
                              last_foodtaken := 0,
                              is_eating := True\<rparr>
                      else s1);
                s3 = (if is_eating s2
                      then s2\<lparr>last_foodtaken := last_foodtaken s2 + CHO act\<rparr>
                      else s2);
                s4 = (if CHO act \<le> 0 \<and> CHO (last_action s3) > 0
                      then s3\<lparr>is_eating := False\<rparr>
                      else s3)
            in (None, s4\<lparr>last_action := act\<rparr>)))"

text \<open>
  The second part is the solver, lines 105 to 114; \<open>action\<close> there is the adjusted action
  that the first part has stored in \<open>_last_action\<close>. The integrator of scipy is a
  parameter: \<open>integrate rhs sol tm\<close> is the solver object after \<open>sol.integrate(tm)\<close> with
  right-hand side \<open>rhs\<close>, or the exception that leaves the call. The bare \<open>raise\<close> of
  line 114, outside any handler, is a \<open>RuntimeError\<close>; the object keeps what the first
  part has written.
\<close>

type_synonym integrator =
  "(real \<Rightarrow> real list \<Rightarrow> error + real list) \<Rightarrow> odesolver \<Rightarrow> real \<Rightarrow> error + odesolver"

definition step :: "integrator \<Rightarrow> patient \<Rightarrow> action \<Rightarrow> error option \<times> patient" where
  "step integrate s act0 =
     (case step_meal s act0 of
        (Some e, s1) \<Rightarrow> (Some e, s1)
      | (None, s5) \<Rightarrow>
          (let act = last_action s5;
               rhs = (\<lambda>tm x. model tm x act (params_of s5) (last_Qsto s5) (last_foodtaken s5))
           in if success (odesolver_of s5)
              then (case integrate rhs (odesolver_of s5) (t (odesolver_of s5) + SAMPLE_TIME) of
                      Inl e \<Rightarrow> (Some e, s5)
                    | Inr sol \<Rightarrow> (None, s5\<lparr>odesolver_of := sol\<rparr>))
              else (Some RuntimeError, s5)))"

subsection \<open>Sequences of calls\<close>

text \<open>
  Successive calls of \<open>_announce_meal\<close> with the amounts of a list: the amounts returned,
  in order, and the object after the last call.
\<close>

fun announce_seq :: "patient \<Rightarrow> real list \<Rightarrow> real list \<times> patient" where
  "announce_seq s [] = ([], s)"
| "announce_seq s (m # ms) =
     (let (to_eat, s1) = announce_meal s m;
          (rest, s2) = announce_seq s1 ms
      in (to_eat # rest, s2))"

text \<open>
  Successive calls of \<open>step\<close> with the actions of a list, each on the object that the call
  before has left (a caller may catch an exception and go on): the object after the last
  call, and for every call the amount ingested, the exception raised and the flag
  \<open>is_eating\<close> after the call.
\<close>

fun run :: "integrator \<Rightarrow> patient \<Rightarrow> action list \<Rightarrow> patient" where
  "run integrate s [] = s"
| "run integrate s (a # as) = run integrate (snd (step integrate s a)) as"

fun eating_trace ::
  "integrator \<Rightarrow> patient \<Rightarrow> action list \<Rightarrow> (real \<times> error option \<times> bool) list" where
  "eating_trace integrate s [] = []"
| "eating_trace integrate s (a # as) =
     (case step integrate s a of
        (e, s1) \<Rightarrow> (fst (announce_meal s (CHO a)), e, is_eating s1) #
                    eating_trace integrate s1 as)"

subsection \<open>Concrete inputs\<close>

text \<open>A parameter row with small rational entries, for evaluation.\<close>

definition p0 :: params where
  "p0 = \<lparr>Name = ''adult#001'', BW = 100, u2ss = 1, kmax = 1, kmin = 0, b = 1 / 4, d = 1,
          kabs = 1, f = 1, kp1 = 4, kp2 = 0, kp3 = 0, kcounter = 0, Fsnc = 1,
          ke1 = 0, ke2 = 300, k1 = 0, k2 = 0, Vg = 2, Gth = 60, Gb = 120, r1 = 1,
          r2 = 1, r3 = 1, Vm0 = 3, Vmx = 0, Km0 = 200, m1 = 0, m2 = 0, m4 = 0,
          m30 = 0, ka1 = 0, ka2 = 0, Vi = 1, p2u = 0, Ib = 100, ki = 0, kd = 0,
          ksc = 0, kGSRd = 0, kGSRs = 0, k01g = 0, kXGn = 0, Gnb = 0, Ith = 0,
          SRb = 0, SQgluc_k1 = 0, SQgluc_kc1 = 0, SQgluc_k2 = 0\<rparr>"

text \<open>A state vector whose stomach and intestine entries are negative.\<close>

definition x_neg :: "real list" where
  "x_neg = [-1, -2, -1, 240, 0, 0, 0, 0, 0, 0, 0, 0, 0, 0, 0, 0, 0, 0]"

definition act_zero :: action where
  "act_zero = \<lparr>CHO = 0, insulin = 0\<rparr>"

text \<open>
  An object as \<open>__init__\<close> holds it when it calls \<open>reset\<close> (the attributes that \<open>reset\<close>
  creates are filled with placeholders), and the object after that \<open>reset\<close>.
\<close>

definition s_new :: patient where
  "s_new = \<lparr>params_of = p0, init_state = replicate 18 0, t0 = 0, last_Qsto = 7,
             last_foodtaken = 7, name = [], odesolver_of = \<lparr>y = [], t = 7, success = False\<rparr>,
             last_action = \<lparr>CHO = 7, insulin = 7\<rparr>, is_eating = True, planned_meal = 7\<rparr>"

definition s_reset :: patient where
  "s_reset = snd (reset s_new)"

text \<open>
  Two integrators for evaluation: one that reaches the requested time with the solution
  unchanged, and one that stops there and reports failure.
\<close>

definition ig_hold :: integrator where
  "ig_hold rhs sol tm = Inr (sol\<lparr>t := tm\<rparr>)"

definition ig_fail :: integrator where
  "ig_fail rhs sol tm = Inr (sol\<lparr>t := tm, success := False\<rparr>)"

text \<open>The object after one step whose integration has failed.\<close>

definition s_failed :: patient where
  "s_failed = snd (step ig_fail s_reset act_zero)"

text \<open>Seven actions that announce 15 g at the third call.\<close>

definition acts7 :: "action list" where
  "acts7 = map (\<lambda>c. \<lparr>CHO = c, insulin = 0\<rparr>) [0, 0, 15, 0, 0, 0, 0]"

subsection \<open>The invariant of the eating flag\<close>

text \<open>The flag \<open>is_eating\<close> agrees with the sign of the stored action's \<open>CHO\<close>.\<close>

definition eat_inv :: "patient \<Rightarrow> bool" where
  "eat_inv s \<longleftrightarrow> (is_eating s \<longleftrightarrow> CHO (last_action s) > 0)"

text \<open>
  A parameter row whose gastric parameters have \<open>b\<close> at least one half and \<open>d\<close> at most
  \<open>1 - b\<close>.
\<close>

definition p1 :: params where
  "p1 = p0\<lparr>kmax := 1 / 20, kmin := 1 / 100, b := 3 / 4, d := 1 / 4\<rparr>"

text \<open>A state vector with non-negative entries, and one with a low plasma glucose.\<close>

definition x_ok :: "real list" where
  "x_ok = [0, 0, 200, 240, 50, 0, 0, 0, 0, 0, 0, 0, 0, 0, 0, 0, 0, 0]"

definition x_low :: "real list" where
  "x_low = x_ok[3 := 60]"

text \<open>A parameter row whose glucose production \<open>EGPt\<close> is negative at \<open>x_ok\<close>.\<close>

definition p2 :: params where
  "p2 = p0\<lparr>kp1 := 1, kp2 := 1 / 100\<rparr>"

subsection \<open>The meal buffer in float64 arithmetic\<close>

text \<open>
  The backlog is a Python float. \<open>round_half_even\<close> rounds to the nearest integer, ties to
  the even one, and \<open>fl64\<close> rounds a real number to the nearest number with a significand
  of 53 bits, ties to even: the rounding of float64, with the range of exponents
  unbounded (overflow and subnormal numbers are outside the model).
\<close>

definition round_half_even :: "real \<Rightarrow> int" where
  "round_half_even q =
     (let n = \<lfloor>q\<rfloor>; r = q - of_int n
      in if r < 1 / 2 then n else if r > 1 / 2 then n + 1
         else if even n then n else n + 1)"

definition fl64 :: "real \<Rightarrow> real" where
  "fl64 x =
     (if x = 0 then 0
      else (let e = \<lfloor>log 2 \<bar>x\<bar>\<rfloor>; u = 2 powi (e - 52)
            in u * of_int (round_half_even (x / u))))"

text \<open>
  \<open>_announce_meal\<close> with the result of the addition of line 261 and of the subtraction
  of line 264 rounded by \<open>rnd\<close>; with \<open>fl64\<close> for \<open>rnd\<close> this is the arithmetic of the
  source. \<open>min\<close>, \<open>max\<close> and the comparison are exact in float64.
\<close>

definition announce_meal_rnd :: "(real \<Rightarrow> real) \<Rightarrow> patient \<Rightarrow> real \<Rightarrow> real \<times> patient" where
  "announce_meal_rnd rnd s meal =
     (let s1 = s\<lparr>planned_meal := rnd (planned_meal s + meal)\<rparr>
      in if planned_meal s1 > 0
         then (let to_eat = min EAT_RATE (planned_meal s1);
                   s2 = s1\<lparr>planned_meal := rnd (planned_meal s1 - to_eat)\<rparr>;
                   s3 = s2\<lparr>planned_meal := max 0 (planned_meal s2)\<rparr>
               in (to_eat, s3))
         else (0, s1))"

fun announce_seq_rnd :: "(real \<Rightarrow> real) \<Rightarrow> patient \<Rightarrow> real list \<Rightarrow> real list \<times> patient" where
  "announce_seq_rnd rnd s [] = ([], s)"
| "announce_seq_rnd rnd s (m # ms) =
     (let (to_eat, s1) = announce_meal_rnd rnd s m;
          (rest, s2) = announce_seq_rnd rnd s1 ms
      in (to_eat # rest, s2))"

text \<open>
  No rounding occurs in the calls with the amounts of a list: \<open>rnd\<close> leaves every sum
  and every difference that the calls compute unchanged.
\<close>

fun exact_seq :: "(real \<Rightarrow> real) \<Rightarrow> patient \<Rightarrow> real list \<Rightarrow> bool" where
  "exact_seq rnd s [] = True"
| "exact_seq rnd s (m # ms) =
     (let backlog = planned_meal s + m
      in rnd backlog = backlog \<and>
         (if backlog > 0 then rnd (backlog - min EAT_RATE backlog) = backlog - min EAT_RATE backlog
          else True) \<and>
         exact_seq rnd (snd (announce_meal_rnd rnd s m)) ms)"

section \<open>Lemmas\<close>

lemma announce_meal_eq:
  "announce_meal s m =
     (if planned_meal s + m > 0
      then (min EAT_RATE (planned_meal s + m),
            s\<lparr>planned_meal := max 0 (planned_meal s + m - min EAT_RATE (planned_meal s + m))\<rparr>)
      else (0, s\<lparr>planned_meal := planned_meal s + m\<rparr>))"
  by (simp add: announce_meal_def Let_def)

lemma announce_meal_keeps:
  "last_action (snd (announce_meal s m)) = last_action s"
  "is_eating (snd (announce_meal s m)) = is_eating s"
  "odesolver_of (snd (announce_meal s m)) = odesolver_of s"
  "last_Qsto (snd (announce_meal s m)) = last_Qsto s"
  "last_foodtaken (snd (announce_meal s m)) = last_foodtaken s"
  by (simp_all add: announce_meal_eq)

lemma step_meal_eq:
  "step_meal s a =
     (let to_eat = fst (announce_meal s (CHO a)); s1 = snd (announce_meal s (CHO a));
          starts = (to_eat > 0 \<and> CHO (last_action s) \<le> 0)
      in if starts \<and> length (y (odesolver_of s)) < 2 then (Some IndexError, s1)
         else (None,
               s1\<lparr>last_Qsto := (if starts then y (odesolver_of s) ! 0 + y (odesolver_of s) ! 1
                                 else last_Qsto s),
                   last_foodtaken := (if starts then to_eat
                                      else if is_eating s then last_foodtaken s + to_eat
                                      else last_foodtaken s),
                   is_eating := (if to_eat \<le> 0 \<and> CHO (last_action s) > 0 then False
                                 else if starts then True else is_eating s),
                   last_action := a\<lparr>CHO := to_eat\<rparr>\<rparr>))"
  by (simp add: step_meal_def split_beta Let_def announce_meal_keeps)

lemma step_meal_solver: "odesolver_of (snd (step_meal s a)) = odesolver_of s"
  by (simp add: step_meal_eq Let_def announce_meal_keeps)

lemma step_meal_error: "fst (step_meal s a) = None \<or> fst (step_meal s a) = Some IndexError"
  by (simp add: step_meal_eq Let_def)

lemma step_cases:
  "step ig s a =
     (if fst (step_meal s a) \<noteq> None then step_meal s a
      else if \<not> success (odesolver_of s) then (Some RuntimeError, snd (step_meal s a))
      else (case ig (\<lambda>tm x. model tm x (last_action (snd (step_meal s a)))
                       (params_of (snd (step_meal s a))) (last_Qsto (snd (step_meal s a)))
                       (last_foodtaken (snd (step_meal s a))))
                    (odesolver_of s) (t (odesolver_of s) + SAMPLE_TIME) of
              Inl e \<Rightarrow> (Some e, snd (step_meal s a))
            | Inr sol \<Rightarrow> (None, (snd (step_meal s a))\<lparr>odesolver_of := sol\<rparr>)))"
proof (cases "step_meal s a")
  case (Pair e s5)
  with step_meal_solver [of s a] have "odesolver_of s5 = odesolver_of s" by simp
  with Pair show ?thesis
    by (cases e) (simp_all add: step_def Let_def split: sum.split)
qed

lemma step_keeps:
  "is_eating (snd (step ig s a)) = is_eating (snd (step_meal s a))"
  "last_action (snd (step ig s a)) = last_action (snd (step_meal s a))"
  "planned_meal (snd (step ig s a)) = planned_meal (snd (step_meal s a))"
  "last_Qsto (snd (step ig s a)) = last_Qsto (snd (step_meal s a))"
  "last_foodtaken (snd (step ig s a)) = last_foodtaken (snd (step_meal s a))"
  by (simp_all add: step_cases split: sum.split)

lemma step_bookkeeping:
  "(snd (step ig s a))\<lparr>odesolver_of := sol\<rparr> = (snd (step_meal s a))\<lparr>odesolver_of := sol\<rparr>"
  by (simp add: step_cases split: sum.split)

lemma step_IndexError_early:
  "fst (announce_meal s (CHO a)) > 0 \<Longrightarrow> CHO (last_action s) \<le> 0 \<Longrightarrow>
   length (y (odesolver_of s)) < 2 \<Longrightarrow> fst (step ig s a) = Some IndexError"
  by (simp add: step_cases step_meal_eq Let_def)

lemma step_is_eating:
  "is_eating (snd (step ig s a)) =
     (let to_eat = fst (announce_meal s (CHO a));
          starts = (to_eat > 0 \<and> CHO (last_action s) \<le> 0)
      in if starts \<and> length (y (odesolver_of s)) < 2 then is_eating s
         else if to_eat \<le> 0 \<and> CHO (last_action s) > 0 then False
         else if starts then True
         else is_eating s)"
  by (simp add: step_keeps step_meal_eq Let_def announce_meal_keeps)

lemma step_last_action:
  "last_action (snd (step ig s a)) =
     (let to_eat = fst (announce_meal s (CHO a));
          starts = (to_eat > 0 \<and> CHO (last_action s) \<le> 0)
      in if starts \<and> length (y (odesolver_of s)) < 2 then last_action s
         else a\<lparr>CHO := to_eat\<rparr>)"
  by (simp add: step_keeps step_meal_eq Let_def announce_meal_keeps)

lemma announce_meal_conserves:
  "fst (announce_meal s m) + planned_meal (snd (announce_meal s m)) = planned_meal s + m"
  by (simp add: announce_meal_eq EAT_RATE_def)

lemma announce_seq_conserves:
  "sum_list (fst (announce_seq s ms)) + planned_meal (snd (announce_seq s ms))
     = planned_meal s + sum_list ms"
proof (induction ms arbitrary: s)
  case Nil
  show ?case by simp
next
  case (Cons m ms)
  obtain e s1 where a: "announce_meal s m = (e, s1)" by (cases "announce_meal s m")
  obtain es s2 where r: "announce_seq s1 ms = (es, s2)" by (cases "announce_seq s1 ms")
  from announce_meal_conserves [of s m] a have 1: "e + planned_meal s1 = planned_meal s + m" by simp
  from Cons.IH [of s1] r have 2: "sum_list es + planned_meal s2 = planned_meal s1 + sum_list ms" by simp
  from 1 2 show ?case by (simp add: a r)
qed

lemma announce_seq_nonneg:
  "0 \<le> planned_meal s \<Longrightarrow> \<forall>m \<in> set ms. 0 \<le> m \<Longrightarrow> 0 \<le> planned_meal (snd (announce_seq s ms))"
proof (induction ms arbitrary: s)
  case Nil
  then show ?case by simp
next
  case (Cons m ms)
  have "0 \<le> planned_meal (snd (announce_meal s m))"
    using Cons.prems by (simp add: announce_meal_eq)
  from Cons.IH [OF this] Cons.prems(2) show ?case
    by (simp add: split_beta Let_def)
qed

lemma eat_inv_step: "eat_inv s \<Longrightarrow> eat_inv (snd (step ig s a))"
  by (auto simp add: eat_inv_def step_is_eating step_last_action Let_def)

lemma run_eat_inv: "eat_inv s \<Longrightarrow> eat_inv (run ig s as)"
  by (induction as arbitrary: s) (simp_all add: eat_inv_step)

lemma reset_ok_fields:
  assumes "reset s = (None, s0)"
  shows "\<not> is_eating s0" "planned_meal s0 = 0" "last_action s0 = \<lparr>CHO = 0, insulin = 0\<rparr>"
  using assms by (auto simp add: reset_def split: if_splits)

lemma reset_eat_inv: "reset s = (None, s0) \<Longrightarrow> eat_inv s0"
  using reset_ok_fields [of s s0] by (simp add: eat_inv_def)

lemma step_flag_of_ingestion:
  assumes "eat_inv s" and "fst (step ig s a) \<noteq> Some IndexError"
  shows "is_eating (snd (step ig s a)) \<longleftrightarrow> fst (announce_meal s (CHO a)) > 0"
  using assms step_IndexError_early [of s a ig]
  by (auto simp add: eat_inv_def step_is_eating Let_def)

lemma trace_flags:
  assumes "eat_inv s" and "\<forall>r \<in> set (eating_trace ig s as). fst (snd r) \<noteq> Some IndexError"
  shows "map (\<lambda>r. snd (snd r)) (eating_trace ig s as)
           = map (\<lambda>r. fst r > 0) (eating_trace ig s as)"
  using assms
proof (induction as arbitrary: s)
  case Nil
  show ?case by simp
next
  case (Cons a as)
  from Cons.prems(2) have ok: "fst (step ig s a) \<noteq> Some IndexError"
    and rest: "\<forall>r \<in> set (eating_trace ig (snd (step ig s a)) as). fst (snd r) \<noteq> Some IndexError"
    by (simp_all add: split_beta)
  from Cons.prems(1) have inv': "eat_inv (snd (step ig s a))" by (rule eat_inv_step)
  from Cons.IH [OF inv' rest] step_flag_of_ingestion [OF Cons.prems(1) ok]
  show ?case by (simp add: split_beta)
qed

lemma reset_s_new: "reset s_new = (None, s_reset)"
  by (simp add: s_reset_def reset_def s_new_def)

lemma s_reset_eq:
  "s_reset = \<lparr>params_of = p0, init_state = replicate 18 0, t0 = 0, last_Qsto = 0,
             last_foodtaken = 0, name = ''adult#001'',
             odesolver_of = \<lparr>y = replicate 18 0, t = 0, success = True\<rparr>,
             last_action = \<lparr>CHO = 0, insulin = 0\<rparr>, is_eating = False, planned_meal = 0\<rparr>"
  by (simp add: s_reset_def reset_def s_new_def p0_def)

lemma trace7:
  "eating_trace ig_hold s_reset acts7 =
     [(0, None, False), (0, None, False), (5, None, True), (5, None, True),
      (5, None, True), (0, None, False), (0, None, False)]"
  by (simp add: acts7_def s_reset_eq step_def step_meal_def announce_meal_eq
      ig_hold_def Let_def EAT_RATE_def SAMPLE_TIME_def)

lemma s_failed_eq:
  "s_failed = s_reset\<lparr>odesolver_of := \<lparr>y = replicate 18 0, t = 1, success = False\<rparr>\<rparr>"
  by (simp add: s_failed_def s_reset_eq step_def step_meal_def announce_meal_eq
      ig_fail_def act_zero_def Let_def EAT_RATE_def SAMPLE_TIME_def)

lemma step_meal_solver_indep:
  assumes "y sol2 = y (odesolver_of s)"
  shows "(snd (step_meal (s\<lparr>odesolver_of := sol2\<rparr>) a))\<lparr>odesolver_of := sol\<rparr>
           = (snd (step_meal s a))\<lparr>odesolver_of := sol\<rparr>"
  using assms by (simp add: step_meal_eq announce_meal_eq Let_def)

lemma kgut_pos_eq:
  "0 < Dbar \<Longrightarrow> kgut p qsto Dbar = kmin p + (kmax p - kmin p) / 2 *
     (tanh (5 / 2 / (1 - b p) / Dbar * (qsto - b p * Dbar))
      - tanh (5 / 2 / d p / Dbar * (qsto - d p * Dbar)) + 2)"
  by (simp add: kgut_def Let_def)

lemma kgut_nonpos_eq: "Dbar \<le> 0 \<Longrightarrow> kgut p qsto Dbar = kmax p"
  by (simp add: kgut_def)

lemma tanh_diff_bounds: "0 < tanh u - tanh v + 2" "tanh u - tanh v + 2 < (4::real)"
  using tanh_real_lt_1 [of u] tanh_real_gt_neg1 [of u] tanh_real_lt_1 [of v]
    tanh_real_gt_neg1 [of v] by linarith+

lemma frac_le_cross:
  fixes P Q X Y :: real
  assumes "0 < P" "0 < Q"
  shows "X / P \<le> Y / Q \<longleftrightarrow> X * Q \<le> Y * P"
  using assms by (simp add: field_simps)

lemma kgut_args_le_iff:
  fixes bb dd Dbar qsto :: real
  assumes "0 < bb" "bb < 1" "0 < dd" "0 < Dbar"
  shows "5 / 2 / (1 - bb) / Dbar * (qsto - bb * Dbar) \<le> 5 / 2 / dd / Dbar * (qsto - dd * Dbar)
         \<longleftrightarrow> 0 \<le> qsto * (1 - bb - dd) + dd * Dbar * (2 * bb - 1)" (is "?l \<le> ?r \<longleftrightarrow> _")
proof -
  have l: "?l = 5 / 2 * ((qsto - bb * Dbar) / ((1 - bb) * Dbar))" by simp
  have r: "?r = 5 / 2 * ((qsto - dd * Dbar) / (dd * Dbar))" by simp
  have pos: "0 < (1 - bb) * Dbar" "0 < dd * Dbar" using assms by simp_all
  have "?l \<le> ?r \<longleftrightarrow>
      (qsto - bb * Dbar) / ((1 - bb) * Dbar) \<le> (qsto - dd * Dbar) / (dd * Dbar)"
    unfolding l r by (rule mult_le_cancel_left_pos) simp
  also have "\<dots> \<longleftrightarrow> (qsto - bb * Dbar) * (dd * Dbar) \<le> (qsto - dd * Dbar) * ((1 - bb) * Dbar)"
    by (rule frac_le_cross [OF pos])
  also have "\<dots> \<longleftrightarrow> ((qsto - bb * Dbar) * dd) * Dbar \<le> ((qsto - dd * Dbar) * (1 - bb)) * Dbar"
    by (simp only: mult.assoc)
  also have "\<dots> \<longleftrightarrow> (qsto - bb * Dbar) * dd \<le> (qsto - dd * Dbar) * (1 - bb)"
    using assms(4) by (rule mult_le_cancel_right_pos)
  also have "\<dots> \<longleftrightarrow> 0 \<le> qsto * (1 - bb - dd) + dd * Dbar * (2 * bb - 1)"
    by (simp add: algebra_simps)
  finally show ?thesis .
qed

lemma nth18:
  "[a0, a1, a2, a3, a4, a5, a6, a7, a8, a9, a10, a11, a12, a13, a14, a15, a16, a17] ! 0 = a0"
  "[a0, a1, a2, a3, a4, a5, a6, a7, a8, a9, a10, a11, a12, a13, a14, a15, a16, a17] ! 1 = a1"
  "[a0, a1, a2, a3, a4, a5, a6, a7, a8, a9, a10, a11, a12, a13, a14, a15, a16, a17] ! 2 = a2"
  "[a0, a1, a2, a3, a4, a5, a6, a7, a8, a9, a10, a11, a12, a13, a14, a15, a16, a17] ! 3 = a3"
  "[a0, a1, a2, a3, a4, a5, a6, a7, a8, a9, a10, a11, a12, a13, a14, a15, a16, a17] ! 4 = a4"
  "[a0, a1, a2, a3, a4, a5, a6, a7, a8, a9, a10, a11, a12, a13, a14, a15, a16, a17] ! 5 = a5"
  "[a0, a1, a2, a3, a4, a5, a6, a7, a8, a9, a10, a11, a12, a13, a14, a15, a16, a17] ! 6 = a6"
  "[a0, a1, a2, a3, a4, a5, a6, a7, a8, a9, a10, a11, a12, a13, a14, a15, a16, a17] ! 7 = a7"
  "[a0, a1, a2, a3, a4, a5, a6, a7, a8, a9, a10, a11, a12, a13, a14, a15, a16, a17] ! 8 = a8"
  "[a0, a1, a2, a3, a4, a5, a6, a7, a8, a9, a10, a11, a12, a13, a14, a15, a16, a17] ! 9 = a9"
  "[a0, a1, a2, a3, a4, a5, a6, a7, a8, a9, a10, a11, a12, a13, a14, a15, a16, a17] ! 10 = a10"
  "[a0, a1, a2, a3, a4, a5, a6, a7, a8, a9, a10, a11, a12, a13, a14, a15, a16, a17] ! 11 = a11"
  "[a0, a1, a2, a3, a4, a5, a6, a7, a8, a9, a10, a11, a12, a13, a14, a15, a16, a17] ! 12 = a12"
  "[a0, a1, a2, a3, a4, a5, a6, a7, a8, a9, a10, a11, a12, a13, a14, a15, a16, a17] ! 13 = a13"
  "[a0, a1, a2, a3, a4, a5, a6, a7, a8, a9, a10, a11, a12, a13, a14, a15, a16, a17] ! 14 = a14"
  "[a0, a1, a2, a3, a4, a5, a6, a7, a8, a9, a10, a11, a12, a13, a14, a15, a16, a17] ! 15 = a15"
  "[a0, a1, a2, a3, a4, a5, a6, a7, a8, a9, a10, a11, a12, a13, a14, a15, a16, a17] ! 16 = a16"
  "[a0, a1, a2, a3, a4, a5, a6, a7, a8, a9, a10, a11, a12, a13, a14, a15, a16, a17] ! 17 = a17"
  by simp_all

lemma dxdt_unclamped:
  "snd (model_body x act p lq lf) ! 0 = raw_dxdt x act p lq lf ! 0"
  "snd (model_body x act p lq lf) ! 1 = raw_dxdt x act p lq lf ! 1"
  "snd (model_body x act p lq lf) ! 2 = raw_dxdt x act p lq lf ! 2"
  unfolding model_body_def raw_dxdt_def Let_def fst_conv snd_conv nth18 by (rule refl)+

lemma dxdt_clamped_each:
  "snd (model_body x act p lq lf) ! 3 = of_bool (0 \<le> x ! 3) * raw_dxdt x act p lq lf ! 3"
  "snd (model_body x act p lq lf) ! 4 = of_bool (0 \<le> x ! 4) * raw_dxdt x act p lq lf ! 4"
  "snd (model_body x act p lq lf) ! 5 = of_bool (0 \<le> x ! 5) * raw_dxdt x act p lq lf ! 5"
  "snd (model_body x act p lq lf) ! 9 = of_bool (0 \<le> x ! 9) * raw_dxdt x act p lq lf ! 9"
  "snd (model_body x act p lq lf) ! 10 = of_bool (0 \<le> x ! 10) * raw_dxdt x act p lq lf ! 10"
  "snd (model_body x act p lq lf) ! 11 = of_bool (0 \<le> x ! 11) * raw_dxdt x act p lq lf ! 11"
  "snd (model_body x act p lq lf) ! 12 = of_bool (0 \<le> x ! 12) * raw_dxdt x act p lq lf ! 12"
  "snd (model_body x act p lq lf) ! 13 = of_bool (0 \<le> x ! 13) * raw_dxdt x act p lq lf ! 13"
  "snd (model_body x act p lq lf) ! 15 = of_bool (0 \<le> x ! 15) * raw_dxdt x act p lq lf ! 15"
  "snd (model_body x act p lq lf) ! 16 = of_bool (0 \<le> x ! 16) * raw_dxdt x act p lq lf ! 16"
  "snd (model_body x act p lq lf) ! 17 = of_bool (0 \<le> x ! 17) * raw_dxdt x act p lq lf ! 17"
  unfolding model_body_def raw_dxdt_def Let_def fst_conv snd_conv nth18 by (rule refl)+

lemma dxdt_clamped:
  assumes "i \<in> {3, 4, 5, 9, 10, 11, 12, 13, 15, 16, 17}"
  shows "snd (model_body x act p lq lf) ! i = of_bool (0 \<le> x ! i) * raw_dxdt x act p lq lf ! i"
proof -
  from assms consider "i = 3" | "i = 4" | "i = 5" | "i = 9" | "i = 10" | "i = 11" | "i = 12"
    | "i = 13" | "i = 15" | "i = 16" | "i = 17" by blast
  then show ?thesis
    by cases (simp_all only: dxdt_clamped_each)
qed

lemma raw_0_1_2:
  "raw_dxdt x act p lq lf ! 0 = - kmax p * x ! 0 + CHO act * 1000"
  "raw_dxdt x act p lq lf ! 1 = kmax p * x ! 0 - x ! 1 * kgut p (x ! 0 + x ! 1) (lq + lf)"
  "raw_dxdt x act p lq lf ! 2 = kgut p (x ! 0 + x ! 1) (lq + lf) * x ! 1 - kabs p * x ! 2"
  unfolding model_body_def raw_dxdt_def Let_def fst_conv snd_conv nth18 by (rule refl)+

lemma raw_3:
  "raw_dxdt x act p lq lf ! 3 =
     max (EGPt p x) 0 + f p * kabs p * x ! 2 / BW p - Fsnc p - Et p x - k1 p * x ! 3 + k2 p * x ! 4"
  unfolding model_body_def raw_dxdt_def Let_def fst_conv snd_conv nth18 by (rule refl)

lemma raw_4:
  "raw_dxdt x act p lq lf ! 4 =
     - ((Vm0 p + Vmx p * x ! 6) * (1 + r3 p * risk p x) * x ! 4 / (Km0 p + x ! 4))
     + k1 p * x ! 3 - k2 p * x ! 4"
  unfolding model_body_def raw_dxdt_def Let_def fst_conv snd_conv nth18 by (rule refl)

lemma model_ok: "18 \<le> length x \<Longrightarrow> model tm x act p lq lf = Inr (snd (model_body x act p lq lf))"
  by (simp add: model_def)

lemma risk_eq:
  "risk p x = (if x ! 3 / Vg p > Gb p then 0
               else 10 * (ln ((max (x ! 3 / Vg p) (Gth p) / Gb p) powr r1 p))\<^sup>2)"
  by (simp add: risk_def Let_def max_def)

lemma x_lengths: "length x_neg = 18" "length x_ok = 18" "length x_low = 18"
  by (simp_all add: x_neg_def x_ok_def x_low_def)

lemma raw_3_ok_p0: "raw_dxdt x_ok act_zero p0 0 0 ! 3 = 5"
  unfolding raw_3 by (simp add: EGPt_def Et_def x_ok_def p0_def)

lemma fl64_binade:
  assumes "2 powi e \<le> \<bar>x\<bar>" and "\<bar>x\<bar> < 2 powi (e + 1)"
  shows "fl64 x = 2 powi (e - 52) * of_int (round_half_even (x / 2 powi (e - 52)))"
proof -
  have pos: "0 < \<bar>x\<bar>" using assms(1) by (smt (verit) zero_less_power_int)
  have "2 powr (of_int e) \<le> \<bar>x\<bar> \<and> \<bar>x\<bar> < 2 powr (of_int (e + 1))"
    using assms by (simp add: powr_real_of_int' del: of_int_add)
  then have "\<lfloor>log 2 \<bar>x\<bar>\<rfloor> = e"
    using pos by (simp add: floor_log_eq_powr_iff)
  with pos show ?thesis by (simp add: fl64_def Let_def)
qed

lemma fl64_53:
  assumes "9007199254740992 \<le> x" and "x < 18014398509481984"
  shows "fl64 x = 2 * of_int (round_half_even (x / 2))"
proof -
  have "(2::real) powi 53 = 9007199254740992" "(2::real) powi (53 + 1) = 18014398509481984"
    by (simp_all add: power_int_def)
  with assms have "2 powi 53 \<le> \<bar>x\<bar>" "\<bar>x\<bar> < 2 powi (53 + 1)" by simp_all
  from fl64_binade [OF this] show ?thesis by simp
qed

lemma round_half_even_int: "round_half_even (of_int n) = n"
  by (simp add: round_half_even_def)

lemma round_half_even_numeral: "round_half_even (numeral k) = numeral k"
  using round_half_even_int [of "numeral k"] by simp

lemma rhe_vals:
  "round_half_even (10000000000000000 / 2) = 5000000000000000"
  "round_half_even (9999999999999995 / 2) = 4999999999999998"
  "round_half_even (9999999999999997 / 2) = 4999999999999998"
  "round_half_even (9999999999999991 / 2) = 4999999999999996"
proof -
  have "(10000000000000000 / 2 :: real) = of_int 5000000000000000" by simp
  then show "round_half_even (10000000000000000 / 2) = 5000000000000000"
    by (simp only: round_half_even_int)
qed (simp_all add: round_half_even_def Let_def)

lemma fl64_vals:
  "fl64 10000000000000000 = 10000000000000000"
  "fl64 9999999999999995 = 9999999999999996"
  "fl64 9999999999999997 = 9999999999999996"
  "fl64 9999999999999991 = 9999999999999992"
  by (simp_all add: fl64_53 rhe_vals round_half_even_numeral)


lemma announce_seq_rnd_example:
  "announce_seq_rnd fl64 s_reset [10000000000000000, 1]
     = ([5, 5], s_reset\<lparr>planned_meal := 9999999999999992\<rparr>)"
  by (simp add: announce_meal_rnd_def Let_def s_reset_eq EAT_RATE_def fl64_vals)

lemma announce_meal_rnd_exact:
  assumes "rnd (planned_meal s + m) = planned_meal s + m"
    and "planned_meal s + m > 0 \<Longrightarrow>
         rnd (planned_meal s + m - min EAT_RATE (planned_meal s + m))
           = planned_meal s + m - min EAT_RATE (planned_meal s + m)"
  shows "announce_meal_rnd rnd s m = announce_meal s m"
  using assms by (simp add: announce_meal_rnd_def announce_meal_def Let_def)

lemma announce_seq_rnd_exact:
  "exact_seq rnd s ms \<Longrightarrow> announce_seq_rnd rnd s ms = announce_seq s ms"
proof (induction ms arbitrary: s)
  case Nil
  show ?case by simp
next
  case (Cons m ms)
  from Cons.prems have e: "announce_meal_rnd rnd s m = announce_meal s m"
    by (intro announce_meal_rnd_exact) (simp_all add: Let_def split: if_splits)
  from Cons.prems have "exact_seq rnd (snd (announce_meal_rnd rnd s m)) ms"
    by (simp add: Let_def)
  from Cons.IH [OF this] show ?case by (simp add: e split_beta)
qed

lemma exact_seq_id: "exact_seq (\<lambda>v. v) s ms"
  by (induction ms arbitrary: s) (simp_all add: Let_def)

lemma fl64_exact:
  assumes "x \<noteq> 0" and "x / 2 powi (\<lfloor>log 2 \<bar>x\<bar>\<rfloor> - 52) = of_int k"
  shows "fl64 x = x"
proof -
  have "fl64 x = 2 powi (\<lfloor>log 2 \<bar>x\<bar>\<rfloor> - 52) * (x / 2 powi (\<lfloor>log 2 \<bar>x\<bar>\<rfloor> - 52))"
    using assms(1) by (simp add: fl64_def Let_def assms(2) round_half_even_int)
  then show ?thesis by simp
qed

lemma fl64_nat:
  assumes "n \<le> 2 ^ 53"
  shows "fl64 (of_nat n) = of_nat n"
proof (cases "n = 0")
  case True
  then show ?thesis by (simp add: fl64_def)
next
  case False
  define e where "e = \<lfloor>log 2 \<bar>real n\<bar>\<rfloor>"
  have npos: "0 < real n" using False by simp
  have "real n \<le> real (2 ^ 53)" using assms by (simp only: of_nat_le_iff)
  also have "real (2 ^ 53) = 2 powr 53" by simp
  finally have le: "real n \<le> 2 powr 53" .
  then have "log 2 (real n) \<le> 53" using npos by (simp add: log_le_iff)
  then have e53: "e \<le> 53" unfolding e_def by (simp add: floor_le_iff)
  have "1 \<le> real n" using False by simp
  then have "0 \<le> log 2 (real n)" by simp
  then have e0: "0 \<le> e" unfolding e_def by simp
  show ?thesis
  proof (cases "e \<le> 52")
    case True
    have "2 powi (e - 52) = (1 / 2 ^ nat (52 - e) :: real)"
      using True by (simp add: power_int_def power_one_over)
    then have "real n / 2 powi (e - 52) = of_int (int n * 2 ^ nat (52 - e))" by simp
    then show ?thesis
      using fl64_exact [of "real n" "int n * 2 ^ nat (52 - e)"] False by (simp add: e_def)
  next
    case False
    with e53 have e: "e = 53" by simp
    then have "2 powr 53 \<le> real n"
      using npos floor_log_eq_powr_iff [of "real n" 2 53] by (simp add: e_def)
    with le have n: "real n = 2 ^ 53" by simp
    have "real n / 2 powi (e - 52) = of_int (2 ^ 52)" by (simp add: e n)
    then show ?thesis
      using fl64_exact [of "real n" "2 ^ 52"] \<open>n \<noteq> 0\<close> by (simp add: e_def)
  qed
qed

lemma exact_seq_nat:
  assumes "planned_meal s = of_nat k" and "\<forall>m \<in> set ms. m \<in> \<nat>"
    and "of_nat k + sum_list ms \<le> (2 ^ 53 :: real)"
  shows "exact_seq fl64 s ms"
  using assms
proof (induction ms arbitrary: s k)
  case Nil
  show ?case by simp
next
  case (Cons m ms)
  from Cons.prems(2) obtain n where m: "m = of_nat n" by (auto simp add: Nats_def)
  from Cons.prems(2) have nat: "\<forall>m \<in> set ms. m \<in> \<nat>" by simp
  then have "\<forall>m \<in> set ms. 0 \<le> m" by (auto simp add: Nats_def)
  then have rest0: "0 \<le> sum_list ms" by (simp add: sum_list_nonneg)
  define b where "b = k + n"
  define k' where "k' = b - min 5 b"
  have b: "planned_meal s + m = of_nat b" by (simp add: Cons.prems(1) m b_def)
  from Cons.prems(3) rest0 have "real b \<le> 2 ^ 53" by (simp add: m b_def)
  then have b53: "b \<le> 2 ^ 53" by (metis of_nat_le_iff of_nat_numeral of_nat_power)
  have k'53: "k' \<le> 2 ^ 53" using b53 by (simp add: k'_def)
  have sub: "real b - min EAT_RATE (real b) = real k'"
    by (simp add: EAT_RATE_def k'_def min_def)
  have e1: "fl64 (planned_meal s + m) = planned_meal s + m"
    unfolding b using b53 by (rule fl64_nat)
  have e2: "fl64 (planned_meal s + m - min EAT_RATE (planned_meal s + m))
              = planned_meal s + m - min EAT_RATE (planned_meal s + m)"
    unfolding b sub using k'53 by (rule fl64_nat)
  have eq: "announce_meal_rnd fl64 s m = announce_meal s m"
    using e1 e2 by (rule announce_meal_rnd_exact)
  have k0: "b = 0 \<Longrightarrow> k' = 0" by (simp add: k'_def)
  have pm': "planned_meal (snd (announce_meal s m)) = of_nat k'"
    using sub k0 by (simp add: announce_meal_eq b)
  have "real k' \<le> real b" by (simp add: k'_def)
  with Cons.prems(3) have "of_nat k' + sum_list ms \<le> (2 ^ 53 :: real)"
    by (simp add: m b_def)
  from Cons.IH [OF pm' nat this] have "exact_seq fl64 (snd (announce_meal s m)) ms" .
  with e1 e2 show ?case by (simp add: Let_def eq)
qed

lemma step_planned_meal:
  "planned_meal (snd (step ig s a)) = planned_meal (snd (announce_meal s (CHO a)))"
  by (simp add: step_keeps step_meal_eq Let_def)

lemma announce_meal_nonneg:
  "0 \<le> planned_meal s \<Longrightarrow> 0 \<le> m \<Longrightarrow> 0 \<le> planned_meal (snd (announce_meal s m))"
  by (simp add: announce_meal_eq)

lemma run_planned_nonneg:
  "0 \<le> planned_meal s \<Longrightarrow> \<forall>a \<in> set as. 0 \<le> CHO a \<Longrightarrow> 0 \<le> planned_meal (run ig s as)"
proof (induction as arbitrary: s)
  case Nil
  then show ?case by simp
next
  case (Cons a as)
  have "0 \<le> planned_meal (snd (step ig s a))"
    using Cons.prems by (simp add: step_planned_meal announce_meal_nonneg)
  from Cons.IH [OF this] Cons.prems(2) show ?case by simp
qed

lemma round_half_even_nonneg: "0 \<le> q \<Longrightarrow> 0 \<le> round_half_even q"
  by (simp add: round_half_even_def Let_def)

lemma fl64_nonneg: "0 \<le> x \<Longrightarrow> 0 \<le> fl64 x"
  by (simp add: fl64_def Let_def round_half_even_nonneg)

lemma announce_meal_rnd_nonneg:
  assumes "0 \<le> rnd (planned_meal s + m)"
  shows "0 \<le> planned_meal (snd (announce_meal_rnd rnd s m))"
  using assms by (simp add: announce_meal_rnd_def Let_def)

section \<open>The claims about the meal buffer\<close>

text \<open>
  C4: \<open>_announce_meal(amount)\<close> first adds the amount to the backlog; if the backlog is
  then positive it returns \<open>min(EAT_RATE, backlog)\<close> and takes that amount from the
  backlog, floored at 0, and otherwise it returns 0. Announcing 0 while the backlog is
  positive returns a positive amount.
\<close>

theorem announce_meal_behaviour:
  "announce_meal s amount =
     (let backlog = planned_meal s + amount
      in if backlog > 0
         then (min EAT_RATE backlog, s\<lparr>planned_meal := max 0 (backlog - min EAT_RATE backlog)\<rparr>)
         else (0, s\<lparr>planned_meal := backlog\<rparr>))
   \<and> (planned_meal s > 0 \<longrightarrow> fst (announce_meal s 0) > 0)"
  by (simp add: announce_meal_eq Let_def EAT_RATE_def)

theorem announce_meal_behaviour_witness:
  "planned_meal (s_reset\<lparr>planned_meal := 7\<rparr>) > 0 \<and>
   announce_meal (s_reset\<lparr>planned_meal := 7\<rparr>) 0 = (5, s_reset\<lparr>planned_meal := 2\<rparr>) \<and>
   fst (announce_meal (s_reset\<lparr>planned_meal := 7\<rparr>) 0) > 0"
  using announce_meal_behaviour [of "s_reset\<lparr>planned_meal := 7\<rparr>" 0]
  by (simp add: EAT_RATE_def)

text \<open>
  C5, as stated: for every sequence of non-negative announced amounts from a zero
  backlog, the sum of the amounts returned equals the total announced minus the backlog
  that remains. In the float64 arithmetic of the source it does not: announcing
  \<open>1e16\<close> and then 1 returns 5 and 5 and leaves 9999999999999992, so that the sum
  returned is 10 and the total announced minus the backlog is 9.
\<close>

theorem ingestion_sum_float_counterexample:
  "planned_meal s_reset = 0 \<and>
   announce_seq_rnd fl64 s_reset [10000000000000000, 1]
     = ([5, 5], s_reset\<lparr>planned_meal := 9999999999999992\<rparr>) \<and>
   sum_list (fst (announce_seq_rnd fl64 s_reset [10000000000000000, 1])) = 10 \<and>
   sum_list [10000000000000000, 1]
     - planned_meal (snd (announce_seq_rnd fl64 s_reset [10000000000000000, 1])) = 9"
  unfolding announce_seq_rnd_example by (simp add: s_reset_eq)

text \<open>
  C5, amended: for a sequence of non-negative announced amounts from a zero backlog, the
  sum of the amounts returned equals the total announced minus the backlog that remains
  whenever no addition or subtraction of the calls is rounded; in float64 this is the
  case for whole-gram amounts whose total is at most \<open>2^53\<close>, and it is the case in
  exact arithmetic.
\<close>

theorem ingestion_sum_exact:
  assumes "planned_meal s = 0" and "\<forall>m \<in> set ms. 0 \<le> m"
  shows "(exact_seq rnd s ms \<longrightarrow>
            sum_list (fst (announce_seq_rnd rnd s ms))
              = sum_list ms - planned_meal (snd (announce_seq_rnd rnd s ms))) \<and>
         ((\<forall>m \<in> set ms. m \<in> \<nat>) \<and> sum_list ms \<le> 2 ^ 53 \<longrightarrow>
            sum_list (fst (announce_seq_rnd fl64 s ms))
              = sum_list ms - planned_meal (snd (announce_seq_rnd fl64 s ms))) \<and>
         sum_list (fst (announce_seq s ms))
           = sum_list ms - planned_meal (snd (announce_seq s ms))"
proof (intro conjI impI)
  show real: "sum_list (fst (announce_seq s ms))
           = sum_list ms - planned_meal (snd (announce_seq s ms))"
    using announce_seq_conserves [of s ms] assms(1) by simp
  show "sum_list (fst (announce_seq_rnd rnd s ms))
          = sum_list ms - planned_meal (snd (announce_seq_rnd rnd s ms))"
    if "exact_seq rnd s ms"
    using real by (simp add: announce_seq_rnd_exact [OF that])
  show "sum_list (fst (announce_seq_rnd fl64 s ms))
          = sum_list ms - planned_meal (snd (announce_seq_rnd fl64 s ms))"
    if h: "(\<forall>m \<in> set ms. m \<in> \<nat>) \<and> sum_list ms \<le> 2 ^ 53"
  proof -
    have "exact_seq fl64 s ms"
      using h assms(1) by (intro exact_seq_nat [of s 0]) simp_all
    then show ?thesis using real by (simp add: announce_seq_rnd_exact)
  qed
qed

theorem ingestion_sum_exact_witness:
  "planned_meal s_reset = 0 \<and> list_all (\<lambda>m. 0 \<le> m \<and> m \<in> \<nat>) [3, 0, 12, 0 :: real] \<and>
   sum_list [3, 0, 12, 0 :: real] \<le> 2 ^ 53 \<and>
   announce_seq s_reset [3, 0, 12, 0] = ([3, 0, 5, 5], s_reset\<lparr>planned_meal := 2\<rparr>) \<and>
   sum_list (fst (announce_seq_rnd fl64 s_reset [3, 0, 12, 0]))
     = sum_list [3, 0, 12, 0] - planned_meal (snd (announce_seq_rnd fl64 s_reset [3, 0, 12, 0]))"
proof -
  have h1: "planned_meal s_reset = 0" by (simp add: s_reset_eq)
  have h2: "\<forall>m \<in> set [3, 0, 12, 0 :: real]. 0 \<le> m" by simp
  have h3: "(\<forall>m \<in> set [3, 0, 12, 0 :: real]. m \<in> \<nat>) \<and> sum_list [3, 0, 12, 0 :: real] \<le> 2 ^ 53"
    by simp
  have ev: "announce_seq s_reset [3, 0, 12, 0] = ([3, 0, 5, 5], s_reset\<lparr>planned_meal := 2\<rparr>)"
    by (simp add: s_reset_eq announce_meal_eq EAT_RATE_def)
  from ingestion_sum_exact [OF h1 h2, of fl64] h3
  have "sum_list (fst (announce_seq_rnd fl64 s_reset [3, 0, 12, 0]))
     = sum_list [3, 0, 12, 0] - planned_meal (snd (announce_seq_rnd fl64 s_reset [3, 0, 12, 0]))"
    by blast
  with h1 ev show ?thesis by simp
qed

text \<open>
  C7: the backlog \<open>planned_meal\<close> is 0 after \<open>reset\<close>, and it is non-negative after every
  call of \<open>_announce_meal\<close> with a non-negative announced amount (a carbohydrate mass) on
  a non-negative backlog, in exact and in float64 arithmetic; hence after every sequence
  of such calls, and of \<open>step\<close> calls with non-negative \<open>CHO\<close>, that follows a \<open>reset\<close>.
\<close>

theorem planned_meal_never_negative:
  "(fst (reset s) = None \<longrightarrow> planned_meal (snd (reset s)) = 0) \<and>
   (0 \<le> planned_meal s \<and> 0 \<le> m \<longrightarrow> 0 \<le> planned_meal (snd (announce_meal s m))) \<and>
   (0 \<le> planned_meal s \<and> 0 \<le> m \<longrightarrow> 0 \<le> planned_meal (snd (announce_meal_rnd fl64 s m))) \<and>
   (reset s = (None, s0) \<and> (\<forall>m \<in> set ms. 0 \<le> m)
      \<longrightarrow> 0 \<le> planned_meal (snd (announce_seq s0 ms))) \<and>
   (reset s = (None, s0) \<and> (\<forall>a \<in> set as. 0 \<le> CHO a)
      \<longrightarrow> 0 \<le> planned_meal (run ig s0 as))"
proof (intro conjI impI)
  show "planned_meal (snd (reset s)) = 0" if "fst (reset s) = None"
    using that by (simp add: reset_def split: if_splits)
  show "0 \<le> planned_meal (snd (announce_meal s m))" if "0 \<le> planned_meal s \<and> 0 \<le> m"
    using that by (simp add: announce_meal_nonneg)
  show "0 \<le> planned_meal (snd (announce_meal_rnd fl64 s m))" if "0 \<le> planned_meal s \<and> 0 \<le> m"
    using that by (intro announce_meal_rnd_nonneg fl64_nonneg) simp
  show "0 \<le> planned_meal (snd (announce_seq s0 ms))"
    if "reset s = (None, s0) \<and> (\<forall>m \<in> set ms. 0 \<le> m)"
    using that reset_ok_fields(2) [of s s0] announce_seq_nonneg [of s0 ms] by simp
  show "0 \<le> planned_meal (run ig s0 as)"
    if "reset s = (None, s0) \<and> (\<forall>a \<in> set as. 0 \<le> CHO a)"
    using that reset_ok_fields(2) [of s s0] run_planned_nonneg [of s0 as ig] by simp
qed

theorem planned_meal_never_negative_witness:
  "reset s_new = (None, s_reset) \<and> list_all (\<lambda>m. 0 \<le> m) [3, 0, 12, 0 :: real] \<and>
   list_all (\<lambda>a. 0 \<le> CHO a) acts7 \<and>
   planned_meal (snd (reset s_new)) = 0 \<and>
   announce_seq s_reset [3, 0, 12, 0] = ([3, 0, 5, 5], s_reset\<lparr>planned_meal := 2\<rparr>) \<and>
   0 \<le> planned_meal (snd (announce_seq s_reset [3, 0, 12, 0])) \<and>
   0 \<le> planned_meal (run ig_hold s_reset acts7)"
proof -
  have ev: "announce_seq s_reset [3, 0, 12, 0] = ([3, 0, 5, 5], s_reset\<lparr>planned_meal := 2\<rparr>)"
    by (simp add: s_reset_eq announce_meal_eq EAT_RATE_def)
  have a: "\<forall>a \<in> set acts7. 0 \<le> CHO a" by (simp add: acts7_def)
  have l: "list_all (\<lambda>a. 0 \<le> CHO a) acts7" by (simp add: acts7_def)
  from planned_meal_never_negative [of s_new 0 s_reset "[3, 0, 12, 0]" acts7 ig_hold]
    reset_s_new a
  have "planned_meal (snd (reset s_new)) = 0"
    "0 \<le> planned_meal (snd (announce_seq s_reset [3, 0, 12, 0]))"
    "0 \<le> planned_meal (run ig_hold s_reset acts7)"
    by simp_all
  with reset_s_new l show ?thesis unfolding ev by simp
qed

section \<open>The claims about the eating flag\<close>

text \<open>
  C6: after \<open>reset\<close> the flag \<open>is_eating\<close> is false. A step that does not end in the
  \<open>IndexError\<close> of reading the state sets the flag when its ingestion is positive and
  the stored \<open>CHO\<close> of the step before is not, clears it when its ingestion is not
  positive and the stored \<open>CHO\<close> is, and leaves it unchanged otherwise. For steps after
  a \<open>reset\<close> whose ingestion sequence is 0, 0, 5, 5, 5, 0, 0 the flags after the steps
  are false, false, true, true, true, false, false.
\<close>

theorem eating_flag_machine:
  assumes "reset s = (None, s0)"
  shows "\<not> is_eating s0 \<and>
    (fst (step ig s1 a) \<noteq> Some IndexError \<longrightarrow>
       (fst (announce_meal s1 (CHO a)) > 0 \<and> CHO (last_action s1) \<le> 0
          \<longrightarrow> is_eating (snd (step ig s1 a))) \<and>
       (fst (announce_meal s1 (CHO a)) \<le> 0 \<and> CHO (last_action s1) > 0
          \<longrightarrow> \<not> is_eating (snd (step ig s1 a))) \<and>
       (\<not> (fst (announce_meal s1 (CHO a)) > 0 \<and> CHO (last_action s1) \<le> 0) \<and>
        \<not> (fst (announce_meal s1 (CHO a)) \<le> 0 \<and> CHO (last_action s1) > 0)
          \<longrightarrow> is_eating (snd (step ig s1 a)) = is_eating s1)) \<and>
    ((\<forall>r \<in> set (eating_trace ig s0 as). fst (snd r) \<noteq> Some IndexError) \<and>
     map fst (eating_trace ig s0 as) = [0, 0, 5, 5, 5, 0, 0]
       \<longrightarrow> map (\<lambda>r. snd (snd r)) (eating_trace ig s0 as)
             = [False, False, True, True, True, False, False])"
proof (intro conjI impI)
  show "\<not> is_eating s0" using assms by (rule reset_ok_fields)
next
  assume "fst (step ig s1 a) \<noteq> Some IndexError"
  then have ok: "\<not> (fst (announce_meal s1 (CHO a)) > 0 \<and> CHO (last_action s1) \<le> 0
      \<and> length (y (odesolver_of s1)) < 2)"
    using step_IndexError_early [of s1 a ig] by blast
  show "is_eating (snd (step ig s1 a))"
    if "fst (announce_meal s1 (CHO a)) > 0 \<and> CHO (last_action s1) \<le> 0"
    using that ok by (auto simp add: step_is_eating Let_def)
  show "\<not> is_eating (snd (step ig s1 a))"
    if "fst (announce_meal s1 (CHO a)) \<le> 0 \<and> CHO (last_action s1) > 0"
    using that by (auto simp add: step_is_eating Let_def)
  show "is_eating (snd (step ig s1 a)) = is_eating s1"
    if "\<not> (fst (announce_meal s1 (CHO a)) > 0 \<and> CHO (last_action s1) \<le> 0) \<and>
        \<not> (fst (announce_meal s1 (CHO a)) \<le> 0 \<and> CHO (last_action s1) > 0)"
    using that by (auto simp add: step_is_eating Let_def)
next
  assume h: "(\<forall>r \<in> set (eating_trace ig s0 as). fst (snd r) \<noteq> Some IndexError) \<and>
     map fst (eating_trace ig s0 as) = [0, 0, 5, 5, 5, 0, 0]"
  then have ok: "\<forall>r \<in> set (eating_trace ig s0 as). fst (snd r) \<noteq> Some IndexError"
    and ing: "map fst (eating_trace ig s0 as) = [0, 0, 5, 5, 5, 0, 0]"
    by simp_all
  have "map (\<lambda>r. snd (snd r)) (eating_trace ig s0 as)
          = map (\<lambda>c. c > 0) (map fst (eating_trace ig s0 as))"
    using trace_flags [OF reset_eat_inv [OF assms] ok] by (simp add: comp_def)
  also have "\<dots> = [False, False, True, True, True, False, False]"
    unfolding ing by simp
  finally show "map (\<lambda>r. snd (snd r)) (eating_trace ig s0 as)
           = [False, False, True, True, True, False, False]" .
qed

theorem eating_flag_machine_witness:
  "reset s_new = (None, s_reset) \<and>
   map (\<lambda>r. fst (snd r)) (eating_trace ig_hold s_reset acts7)
     = [None, None, None, None, None, None, None] \<and>
   map fst (eating_trace ig_hold s_reset acts7) = [0, 0, 5, 5, 5, 0, 0] \<and>
   map (\<lambda>r. snd (snd r)) (eating_trace ig_hold s_reset acts7)
     = [False, False, True, True, True, False, False] \<and>
   \<not> is_eating s_reset"
  using eating_flag_machine [OF reset_s_new, of ig_hold s_reset act_zero acts7] reset_s_new
  by (simp add: trace7)

text \<open>
  C10: after \<open>reset\<close> and after every sequence of \<open>step\<close> calls that follows it, the
  flag \<open>is_eating\<close> equals (\<open>CHO\<close> of the stored action > 0); and after a successful
  step the stored \<open>CHO\<close> is the amount that \<open>_announce_meal\<close> has returned in that step.
\<close>

theorem is_eating_iff_last_CHO_positive:
  "(reset s = (None, s0) \<longrightarrow>
      (is_eating s0 \<longleftrightarrow> CHO (last_action s0) > 0) \<and>
      (is_eating (run ig s0 as) \<longleftrightarrow> CHO (last_action (run ig s0 as)) > 0)) \<and>
   (fst (step ig s1 a) = None \<longrightarrow>
      CHO (last_action (snd (step ig s1 a))) = fst (announce_meal s1 (CHO a)))"
proof (intro conjI impI)
  assume r: "reset s = (None, s0)"
  from reset_eat_inv [OF r] show "is_eating s0 \<longleftrightarrow> CHO (last_action s0) > 0"
    by (simp add: eat_inv_def)
  from run_eat_inv [OF reset_eat_inv [OF r], of ig as]
  show "is_eating (run ig s0 as) \<longleftrightarrow> CHO (last_action (run ig s0 as)) > 0"
    by (simp add: eat_inv_def)
next
  assume "fst (step ig s1 a) = None"
  then show "CHO (last_action (snd (step ig s1 a))) = fst (announce_meal s1 (CHO a))"
    using step_IndexError_early [of s1 a ig]
    by (auto simp add: step_last_action Let_def)
qed

theorem is_eating_iff_last_CHO_positive_witness:
  "reset s_new = (None, s_reset) \<and>
   fst (step ig_hold s_reset \<lparr>CHO = 15, insulin = 0\<rparr>) = None \<and>
   is_eating (run ig_hold s_reset [\<lparr>CHO = 15, insulin = 0\<rparr>]) \<and>
   CHO (last_action (run ig_hold s_reset [\<lparr>CHO = 15, insulin = 0\<rparr>])) = 5"
proof -
  have st: "step ig_hold s_reset \<lparr>CHO = 15, insulin = 0\<rparr> =
      (None, s_reset\<lparr>last_foodtaken := 5,
                     odesolver_of := \<lparr>y = replicate 18 0, t = 1, success = True\<rparr>,
                     last_action := \<lparr>CHO = 5, insulin = 0\<rparr>,
                     is_eating := True, planned_meal := 10\<rparr>)"
    by (simp add: s_reset_eq step_def step_meal_def announce_meal_eq ig_hold_def Let_def
        EAT_RATE_def SAMPLE_TIME_def)
  from is_eating_iff_last_CHO_positive
         [of s_new s_reset ig_hold "[\<lparr>CHO = 15, insulin = 0\<rparr>]" s_reset "\<lparr>CHO = 15, insulin = 0\<rparr>"]
       reset_s_new
  show ?thesis by (simp add: st)
qed

section \<open>The claim about a failed integration\<close>

text \<open>
  C2, as stated: when the integrator has reported a failure, \<open>step\<close> raises and leaves
  \<open>planned_meal\<close>, \<open>is_eating\<close>, \<open>last_Qsto\<close>, \<open>last_foodtaken\<close> and the previous
  action unchanged. It does not: the meal bookkeeping runs before the test of
  \<open>successful()\<close>. After a step whose integration has failed, a step that announces
  10 g raises and has changed the backlog, the flag, the food taken and the stored action.
\<close>

theorem failed_step_changes_state_counterexample:
  "\<not> success (odesolver_of s_failed) \<and>
   step ig_hold s_failed \<lparr>CHO = 10, insulin = 0\<rparr> =
     (Some RuntimeError,
      s_failed\<lparr>last_foodtaken := 5, last_action := \<lparr>CHO = 5, insulin = 0\<rparr>,
               is_eating := True, planned_meal := 5\<rparr>) \<and>
   last_foodtaken s_failed = 0 \<and> last_action s_failed = \<lparr>CHO = 0, insulin = 0\<rparr> \<and>
   \<not> is_eating s_failed \<and> planned_meal s_failed = 0"
  by (simp add: s_failed_eq s_reset_eq step_def step_meal_def announce_meal_eq
      Let_def EAT_RATE_def)

text \<open>
  C2, amended: when the integrator has reported a failure, \<open>step\<close> raises on that call;
  it does not call the integrator (the result is the same for every integrator, so there
  is no retry) and leaves the solver object, hence the state vector and the time,
  unchanged. The other attributes are as the meal bookkeeping of the step leaves them,
  the same as after a step of the same object whose solver reports success.
\<close>

theorem failed_step_raises:
  assumes "\<not> success (odesolver_of s)"
  shows "(fst (step ig s a) = Some RuntimeError \<or> fst (step ig s a) = Some IndexError) \<and>
         odesolver_of (snd (step ig s a)) = odesolver_of s \<and>
         step ig' s a = step ig s a \<and>
         snd (step ig s a) = snd (step_meal s a) \<and>
         (snd (step ig s a))\<lparr>odesolver_of := sol\<rparr> =
           (snd (step ig' (s\<lparr>odesolver_of := (odesolver_of s)\<lparr>success := True\<rparr>\<rparr>) a))
             \<lparr>odesolver_of := sol\<rparr>"
proof -
  have 1: "step ig s a =
      (if fst (step_meal s a) \<noteq> None then step_meal s a
       else (Some RuntimeError, snd (step_meal s a)))" for ig
    using assms by (simp add: step_cases)
  have 2: "snd (step ig s a) = snd (step_meal s a)"
    by (simp add: 1)
  have 3: "fst (step ig s a) = Some RuntimeError \<or> fst (step ig s a) = Some IndexError"
    using step_meal_error [of s a] by (auto simp add: 1)
  have 4: "(snd (step ig' (s\<lparr>odesolver_of := (odesolver_of s)\<lparr>success := True\<rparr>\<rparr>) a))
             \<lparr>odesolver_of := sol\<rparr> = (snd (step_meal s a))\<lparr>odesolver_of := sol\<rparr>"
    by (simp add: step_bookkeeping step_meal_solver_indep)
  show ?thesis
    using 3 by (simp add: 2 4 step_meal_solver) (simp add: 1)
qed

theorem failed_step_raises_witness:
  "\<not> success (odesolver_of s_failed) \<and>
   fst (step ig_hold s_failed \<lparr>CHO = 10, insulin = 0\<rparr>) = Some RuntimeError \<and>
   odesolver_of (snd (step ig_hold s_failed \<lparr>CHO = 10, insulin = 0\<rparr>)) = odesolver_of s_failed \<and>
   planned_meal (snd (step_meal s_failed \<lparr>CHO = 10, insulin = 0\<rparr>)) = 5"
proof -
  have h: "\<not> success (odesolver_of s_failed)" by (simp add: s_failed_eq)
  have m: "step_meal s_failed \<lparr>CHO = 10, insulin = 0\<rparr> =
     (None, s_failed\<lparr>last_foodtaken := 5, last_action := \<lparr>CHO = 5, insulin = 0\<rparr>,
               is_eating := True, planned_meal := 5\<rparr>)"
    by (simp add: s_failed_eq s_reset_eq step_meal_def announce_meal_eq Let_def EAT_RATE_def)
  have st: "step ig_hold s_failed \<lparr>CHO = 10, insulin = 0\<rparr> =
     (Some RuntimeError, s_failed\<lparr>last_foodtaken := 5, last_action := \<lparr>CHO = 5, insulin = 0\<rparr>,
               is_eating := True, planned_meal := 5\<rparr>)"
    using h by (simp add: step_def m)
  from failed_step_raises [OF h, of ig_hold "\<lparr>CHO = 10, insulin = 0\<rparr>" ig_hold "odesolver_of s_failed"]
  have "odesolver_of (snd (step ig_hold s_failed \<lparr>CHO = 10, insulin = 0\<rparr>)) = odesolver_of s_failed"
    by blast
  with h show ?thesis by (simp add: m st)
qed

section \<open>The claims about the right-hand side\<close>

text \<open>
  C3, as stated: for \<open>kmin \<le> kmax\<close>, \<open>0 < b < 1\<close>, \<open>0 < d\<close> and \<open>Dbar \<ge> 0\<close> the rate
  \<open>kgut\<close> lies in \<open>[kmin, kmax]\<close>. It does not: with \<open>kmin = 0\<close>, \<open>kmax = 1\<close>,
  \<open>b = 1/4\<close>, \<open>d = 1\<close>, an empty stomach and \<open>Dbar = 1\<close> the rate is
  \<open>(tanh (-5/6) - tanh (-5/2) + 2) / 2\<close>, which is above \<open>kmax\<close>.
\<close>

theorem kgut_above_kmax_counterexample:
  "kmin p0 \<le> kmax p0 \<and> 0 < b p0 \<and> b p0 < 1 \<and> 0 < d p0 \<and> kmax p0 < kgut p0 0 1"
proof -
  have "tanh (- (5 / 2)) < tanh (- (5 / 6) :: real)" by simp
  then show ?thesis by (simp add: kgut_pos_eq p0_def)
qed

text \<open>
  C3, amended: under the same hypotheses \<open>kgut\<close> lies in \<open>[kmin, 2 kmax - kmin]\<close>, and
  it equals \<open>kmax\<close> when \<open>Dbar = 0\<close> (no division by \<open>Dbar\<close> is evaluated there). For
  \<open>Dbar > 0\<close> and \<open>kmin < kmax\<close> it is at most \<open>kmax\<close> exactly when
  \<open>qsto (1 - b - d) + d Dbar (2 b - 1) \<ge> 0\<close>; this holds whenever \<open>b \<ge> 1/2\<close>,
  \<open>d \<le> 1 - b\<close> and \<open>qsto \<ge> 0\<close>, and then \<open>kgut\<close> lies in \<open>[kmin, kmax]\<close>.
\<close>

theorem kgut_bounds:
  assumes "kmin p \<le> kmax p" and "0 < b p" and "b p < 1" and "0 < d p" and "0 \<le> Dbar"
  shows "kmin p \<le> kgut p qsto Dbar \<and> kgut p qsto Dbar \<le> 2 * kmax p - kmin p \<and>
         kgut p qsto 0 = kmax p \<and>
         (0 < Dbar \<and> kmin p < kmax p \<longrightarrow>
            (kgut p qsto Dbar \<le> kmax p \<longleftrightarrow>
               0 \<le> qsto * (1 - b p - d p) + d p * Dbar * (2 * b p - 1))) \<and>
         (1 / 2 \<le> b p \<and> d p \<le> 1 - b p \<and> 0 \<le> qsto \<longrightarrow> kgut p qsto Dbar \<le> kmax p)"
proof -
  define A where "A = 5 / 2 / (1 - b p) / Dbar * (qsto - b p * Dbar)"
  define C where "C = 5 / 2 / d p / Dbar * (qsto - d p * Dbar)"
  define w where "w = (kmax p - kmin p) / 2"
  have w: "0 \<le> w" using assms(1) by (simp add: w_def)
  have eq: "kgut p qsto Dbar = kmin p + w * (tanh A - tanh C + 2)" if "0 < Dbar"
    using that by (simp add: kgut_pos_eq A_def C_def w_def)
  have AC: "A \<le> C \<longleftrightarrow> 0 \<le> qsto * (1 - b p - d p) + d p * Dbar * (2 * b p - 1)"
    if "0 < Dbar"
    unfolding A_def C_def using assms(2-4) that by (rule kgut_args_le_iff)
  have lower: "kmin p \<le> kgut p qsto Dbar"
  proof (cases "0 < Dbar")
    case True
    have "0 \<le> w * (tanh A - tanh C + 2)"
      using w tanh_diff_bounds(1) [of A C] by (simp add: mult_nonneg_nonneg)
    then show ?thesis by (simp add: eq [OF True])
  next
    case False
    then show ?thesis using assms(1) by (simp add: kgut_nonpos_eq)
  qed
  have upper: "kgut p qsto Dbar \<le> 2 * kmax p - kmin p"
  proof (cases "0 < Dbar")
    case True
    have "w * (tanh A - tanh C + 2) \<le> w * 4"
      using w tanh_diff_bounds(2) [of A C] by (intro mult_left_mono) simp_all
    then show ?thesis by (simp add: eq [OF True] w_def)
  next
    case False
    then show ?thesis using assms(1) by (simp add: kgut_nonpos_eq)
  qed
  have zero: "kgut p qsto 0 = kmax p" by (simp add: kgut_nonpos_eq)
  have iff: "kgut p qsto Dbar \<le> kmax p \<longleftrightarrow>
               0 \<le> qsto * (1 - b p - d p) + d p * Dbar * (2 * b p - 1)"
    if "0 < Dbar \<and> kmin p < kmax p"
  proof -
    from that have D: "0 < Dbar" and wp: "0 < w" by (simp_all add: w_def)
    have km: "kmax p = kmin p + w * 2" unfolding w_def by (simp add: field_simps)
    have "kgut p qsto Dbar \<le> kmax p \<longleftrightarrow> w * (tanh A - tanh C + 2) \<le> w * 2"
      using km eq [OF D] by linarith
    also have "\<dots> \<longleftrightarrow> tanh A - tanh C + 2 \<le> 2"
      using wp by (rule mult_le_cancel_left_pos)
    also have "\<dots> \<longleftrightarrow> A \<le> C" by simp
    finally show ?thesis by (simp add: AC [OF D])
  qed
  have suff: "kgut p qsto Dbar \<le> kmax p" if h: "1 / 2 \<le> b p \<and> d p \<le> 1 - b p \<and> 0 \<le> qsto"
  proof (cases "0 < Dbar")
    case True
    have "0 \<le> qsto * (1 - b p - d p)" using h by (intro mult_nonneg_nonneg) simp_all
    moreover have "0 \<le> d p * Dbar * (2 * b p - 1)"
      using h assms(4) True by (intro mult_nonneg_nonneg) simp_all
    ultimately have "A \<le> C" by (simp add: AC [OF True])
    then have "w * (tanh A - tanh C + 2) \<le> w * 2"
      using w by (intro mult_left_mono) simp_all
    then show ?thesis by (simp add: eq [OF True] w_def)
  next
    case False
    then show ?thesis by (simp add: kgut_nonpos_eq)
  qed
  from lower upper zero iff suff show ?thesis by blast
qed

theorem kgut_bounds_witness:
  "kmin p1 \<le> kmax p1 \<and> 0 < b p1 \<and> b p1 < 1 \<and> 0 < d p1 \<and> 1 / 2 \<le> b p1 \<and> d p1 \<le> 1 - b p1 \<and>
   kmin p1 \<le> kgut p1 2 1 \<and> kgut p1 2 1 \<le> kmax p1 \<and> kgut p1 2 0 = kmax p1"
proof -
  have h: "kmin p1 \<le> kmax p1" "0 < b p1" "b p1 < 1" "0 < d p1" "(0::real) \<le> 1"
    by (simp_all add: p1_def p0_def)
  have g: "1 / 2 \<le> b p1 \<and> d p1 \<le> 1 - b p1 \<and> (0::real) \<le> 2"
    by (simp add: p1_def p0_def)
  from kgut_bounds [OF h, of 2] g h show ?thesis by blast
qed

text \<open>
  C1, as stated: for the stomach \<open>x[0]\<close>, \<open>x[1]\<close> and the intestine \<open>x[2]\<close>, as for
  the other compartments it names, the returned derivative is the raw derivative times
  the indicator of \<open>x[i] \<ge> 0\<close>. For these three the source has no such line: at a
  state with negative \<open>x[0]\<close>, \<open>x[1]\<close>, \<open>x[2]\<close> the returned derivatives are 1, 1
  and -1, not 0.
\<close>

theorem stomach_not_clamped_counterexample:
  "model 0 x_neg act_zero p0 0 0 = Inr (snd (model_body x_neg act_zero p0 0 0)) \<and>
   x_neg ! 0 < 0 \<and> x_neg ! 1 < 0 \<and> x_neg ! 2 < 0 \<and>
   snd (model_body x_neg act_zero p0 0 0) ! 0 = 1 \<and>
   snd (model_body x_neg act_zero p0 0 0) ! 1 = 1 \<and>
   snd (model_body x_neg act_zero p0 0 0) ! 2 = - 1 \<and>
   of_bool (0 \<le> x_neg ! 0) * raw_dxdt x_neg act_zero p0 0 0 ! 0 = 0 \<and>
   of_bool (0 \<le> x_neg ! 1) * raw_dxdt x_neg act_zero p0 0 0 ! 1 = 0 \<and>
   of_bool (0 \<le> x_neg ! 2) * raw_dxdt x_neg act_zero p0 0 0 ! 2 = 0"
proof -
  have v: "x_neg ! 0 = - 1" "x_neg ! 1 = - 2" "x_neg ! 2 = - 1"
    by (simp_all add: x_neg_def)
  have k: "kgut p0 (- 1 + - 2) (0 + 0) = 1" by (simp add: kgut_def p0_def)
  have r: "raw_dxdt x_neg act_zero p0 0 0 ! 0 = 1" "raw_dxdt x_neg act_zero p0 0 0 ! 1 = 1"
    "raw_dxdt x_neg act_zero p0 0 0 ! 2 = - 1"
    unfolding raw_0_1_2 v k by (simp_all add: p0_def act_zero_def)
  have m: "model 0 x_neg act_zero p0 0 0 = Inr (snd (model_body x_neg act_zero p0 0 0))"
    by (rule model_ok) (simp add: x_lengths)
  have dx: "snd (model_body x_neg act_zero p0 0 0) ! 0 = 1"
    "snd (model_body x_neg act_zero p0 0 0) ! 1 = 1"
    "snd (model_body x_neg act_zero p0 0 0) ! 2 = - 1"
    unfolding dxdt_unclamped by (rule r)+
  have n: "x_neg ! 0 < 0" "x_neg ! 1 < 0" "x_neg ! 2 < 0"
    unfolding v by simp_all
  have z: "of_bool (0 \<le> x_neg ! 0) * raw_dxdt x_neg act_zero p0 0 0 ! 0 = 0"
    "of_bool (0 \<le> x_neg ! 1) * raw_dxdt x_neg act_zero p0 0 0 ! 1 = 0"
    "of_bool (0 \<le> x_neg ! 2) * raw_dxdt x_neg act_zero p0 0 0 ! 2 = 0"
    unfolding v by simp_all
  show ?thesis
    by (intro conjI) (rule m n dx z)+
qed

text \<open>
  C1, amended: for plasma glucose \<open>x[3]\<close>, remote glucose \<open>x[4]\<close>, the insulin
  compartments \<open>x[5]\<close>, \<open>x[9]\<close>, \<open>x[10]\<close>, \<open>x[11]\<close>, subcutaneous glucose \<open>x[12]\<close>,
  the glucagon compartments \<open>x[13]\<close>, \<open>x[15]\<close> and subcutaneous glucagon \<open>x[16]\<close>,
  \<open>x[17]\<close> the returned derivative is the raw derivative times the indicator of
  \<open>x[i] \<ge> 0\<close>; for the stomach \<open>x[0]\<close>, \<open>x[1]\<close> and the intestine \<open>x[2]\<close> it is the
  raw derivative itself.
\<close>

theorem clamped_derivatives:
  assumes "18 \<le> length x" and "i \<in> {3, 4, 5, 9, 10, 11, 12, 13, 15, 16, 17}"
  shows "\<exists>dx. model tm x act p lq lf = Inr dx \<and>
           dx ! i = of_bool (0 \<le> x ! i) * raw_dxdt x act p lq lf ! i \<and>
           dx ! 0 = raw_dxdt x act p lq lf ! 0 \<and>
           dx ! 1 = raw_dxdt x act p lq lf ! 1 \<and>
           dx ! 2 = raw_dxdt x act p lq lf ! 2"
proof (intro exI conjI)
  show "model tm x act p lq lf = Inr (snd (model_body x act p lq lf))"
    using assms(1) by (rule model_ok)
  show "snd (model_body x act p lq lf) ! i = of_bool (0 \<le> x ! i) * raw_dxdt x act p lq lf ! i"
    using assms(2) by (rule dxdt_clamped)
  show "snd (model_body x act p lq lf) ! 0 = raw_dxdt x act p lq lf ! 0"
    "snd (model_body x act p lq lf) ! 1 = raw_dxdt x act p lq lf ! 1"
    "snd (model_body x act p lq lf) ! 2 = raw_dxdt x act p lq lf ! 2"
    by (rule dxdt_unclamped)+
qed

theorem clamped_derivatives_witness:
  "18 \<le> length x_ok \<and> (3::nat) \<in> {3, 4, 5, 9, 10, 11, 12, 13, 15, 16, 17} \<and>
   model 0 x_ok act_zero p0 0 0 = Inr (snd (model_body x_ok act_zero p0 0 0)) \<and>
   snd (model_body x_ok act_zero p0 0 0) ! 3 = 5"
proof -
  have h1: "18 \<le> length x_ok" by (simp add: x_lengths)
  have h2: "(3::nat) \<in> {3, 4, 5, 9, 10, 11, 12, 13, 15, 16, 17}" by simp
  from clamped_derivatives [OF h1 h2, of 0 act_zero p0 0 0]
  obtain dx where dx: "model 0 x_ok act_zero p0 0 0 = Inr dx"
    and d3: "dx ! 3 = of_bool (0 \<le> x_ok ! 3) * raw_dxdt x_ok act_zero p0 0 0 ! 3"
    by blast
  from dx model_ok [OF h1, of 0 act_zero p0 0 0]
  have e: "dx = snd (model_body x_ok act_zero p0 0 0)" by simp
  have "x_ok ! 3 = 240" by (simp add: x_ok_def)
  with d3 have "dx ! 3 = 5" by (simp add: raw_3_ok_p0)
  with dx e h1 h2 show ?thesis by simp
qed

text \<open>
  C8: with \<open>Gt = x[3] / Vg\<close>, the glucose risk term of \<open>model\<close> is 0 when
  \<open>Gt > Gb\<close>, and otherwise 10 times the square of \<open>log ((max(Gt, Gth) / Gb) ** r1)\<close>;
  for positive \<open>Gth\<close> and \<open>Gb\<close> the quotient under the power is positive. The term
  enters the raw derivative of the remote glucose \<open>x[4]\<close>.
\<close>

theorem risk_term:
  "risk p x = (let Gt = x ! 3 / Vg p
               in if Gt > Gb p then 0
                  else 10 * (ln ((max Gt (Gth p) / Gb p) powr r1 p))\<^sup>2) \<and>
   (0 < Gth p \<and> 0 < Gb p \<longrightarrow> 0 < max (x ! 3 / Vg p) (Gth p) / Gb p) \<and>
   raw_dxdt x act p lq lf ! 4 =
     - ((Vm0 p + Vmx p * x ! 6) * (1 + r3 p * risk p x) * x ! 4 / (Km0 p + x ! 4))
     + k1 p * x ! 3 - k2 p * x ! 4"
proof (intro conjI impI)
  show "risk p x = (let Gt = x ! 3 / Vg p
               in if Gt > Gb p then 0
                  else 10 * (ln ((max Gt (Gth p) / Gb p) powr r1 p))\<^sup>2)"
    by (simp add: risk_eq Let_def)
  show "0 < max (x ! 3 / Vg p) (Gth p) / Gb p" if "0 < Gth p \<and> 0 < Gb p"
  proof -
    from that have "0 < max (x ! 3 / Vg p) (Gth p)" by (simp add: less_max_iff_disj)
    with that show ?thesis by simp
  qed
  show "raw_dxdt x act p lq lf ! 4 =
     - ((Vm0 p + Vmx p * x ! 6) * (1 + r3 p * risk p x) * x ! 4 / (Km0 p + x ! 4))
     + k1 p * x ! 3 - k2 p * x ! 4"
    by (rule raw_4)
qed

theorem risk_term_witness:
  "0 < Gth p0 \<and> 0 < Gb p0 \<and> x_low ! 3 / Vg p0 = 30 \<and>
   risk p0 x_low = 10 * (ln (1 / 2))\<^sup>2 \<and>
   0 < max (x_low ! 3 / Vg p0) (Gth p0) / Gb p0 \<and>
   risk p0 x_ok = 0"
proof -
  have v: "x_low ! 3 = 60" "x_ok ! 3 = 240" by (simp_all add: x_low_def x_ok_def)
  have g: "0 < Gth p0 \<and> 0 < Gb p0" by (simp add: p0_def)
  have q: "Vg p0 = 2" "Gth p0 = 60" "Gb p0 = 120" "r1 p0 = 1" by (simp_all add: p0_def)
  from risk_term [of p0 x_low] g
  have a: "risk p0 x_low = 10 * (ln (1 / 2))\<^sup>2"
    and b: "0 < max (x_low ! 3 / Vg p0) (Gth p0) / Gb p0"
    by (simp_all add: v q Let_def)
  from risk_term [of p0 x_ok]
  have c: "risk p0 x_ok = 0" by (simp add: v q Let_def)
  from g a b c show ?thesis by (simp add: v q)
qed

text \<open>
  C9: the glucose production enters \<open>dxdt[3]\<close> as \<open>max(EGPt, 0)\<close> with
  \<open>EGPt = kp1 - kp2 * x[3] - kp3 * x[8] + kcounter * x[14]\<close>; when that expression is
  not positive the returned \<open>dxdt[3]\<close> is the one of the other terms alone, and it is
  never below that value.
\<close>

theorem EGP_floored:
  assumes "18 \<le> length x"
  shows "\<exists>dx. model tm x act p lq lf = Inr dx \<and>
     dx ! 3 = of_bool (0 \<le> x ! 3) *
       (max (kp1 p - kp2 p * x ! 3 - kp3 p * x ! 8 + kcounter p * x ! 14) 0
        + f p * kabs p * x ! 2 / BW p - Fsnc p - Et p x - k1 p * x ! 3 + k2 p * x ! 4) \<and>
     (kp1 p - kp2 p * x ! 3 - kp3 p * x ! 8 + kcounter p * x ! 14 \<le> 0 \<longrightarrow>
        dx ! 3 = of_bool (0 \<le> x ! 3) *
          (f p * kabs p * x ! 2 / BW p - Fsnc p - Et p x - k1 p * x ! 3 + k2 p * x ! 4)) \<and>
     of_bool (0 \<le> x ! 3) *
       (f p * kabs p * x ! 2 / BW p - Fsnc p - Et p x - k1 p * x ! 3 + k2 p * x ! 4) \<le> dx ! 3"
proof -
  define E where "E = kp1 p - kp2 p * x ! 3 - kp3 p * x ! 8 + kcounter p * x ! 14"
  define R where "R = f p * kabs p * x ! 2 / BW p - Fsnc p - Et p x - k1 p * x ! 3 + k2 p * x ! 4"
  define dx where "dx = snd (model_body x act p lq lf)"
  have m: "model tm x act p lq lf = Inr dx"
    unfolding dx_def using assms by (rule model_ok)
  have "dx ! 3 = of_bool (0 \<le> x ! 3) * raw_dxdt x act p lq lf ! 3"
    unfolding dx_def by (rule dxdt_clamped_each)
  then have d3: "dx ! 3 = of_bool (0 \<le> x ! 3) * (max E 0 + R)"
    by (simp add: raw_3 EGPt_def E_def R_def)
  have neg: "dx ! 3 = of_bool (0 \<le> x ! 3) * R" if "E \<le> 0"
    using that by (simp add: d3 max_def)
  have "of_bool (0 \<le> x ! 3) * R \<le> of_bool (0 \<le> x ! 3) * (max E 0 + R)"
    by (intro mult_left_mono) simp_all
  then have low: "of_bool (0 \<le> x ! 3) * R \<le> dx ! 3" by (simp add: d3)
  have "model tm x act p lq lf = Inr dx \<and>
     dx ! 3 = of_bool (0 \<le> x ! 3) * (max E 0 + R) \<and>
     (E \<le> 0 \<longrightarrow> dx ! 3 = of_bool (0 \<le> x ! 3) * R) \<and>
     of_bool (0 \<le> x ! 3) * R \<le> dx ! 3"
    using m d3 neg low by blast
  then show ?thesis
    unfolding E_def R_def by (simp only: add.assoc diff_conv_add_uminus) blast
qed

theorem EGP_floored_witness:
  "18 \<le> length x_ok \<and> EGPt p2 x_ok = - (7 / 5) \<and>
   model 0 x_ok act_zero p2 0 0 = Inr (snd (model_body x_ok act_zero p2 0 0)) \<and>
   snd (model_body x_ok act_zero p2 0 0) ! 3 = 1"
proof -
  have h: "18 \<le> length x_ok" by (simp add: x_lengths)
  have v: "x_ok ! 2 = 200" "x_ok ! 3 = 240" "x_ok ! 4 = 50" "x_ok ! 8 = 0" "x_ok ! 14 = 0"
    by (simp_all add: x_ok_def)
  have q: "kp1 p2 = 1" "kp2 p2 = 1 / 100" "kp3 p2 = 0" "kcounter p2 = 0" "f p2 = 1"
    "kabs p2 = 1" "BW p2 = 100" "Fsnc p2 = 1" "k1 p2 = 0" "k2 p2 = 0" "ke2 p2 = 300"
    by (simp_all add: p2_def p0_def)
  have e: "EGPt p2 x_ok = - (7 / 5)" by (simp add: EGPt_def v q)
  have et: "Et p2 x_ok = 0" by (simp add: Et_def v q)
  from EGP_floored [OF h, of 0 act_zero p2 0 0]
  obtain dx where dx: "model 0 x_ok act_zero p2 0 0 = Inr dx"
    and d3: "kp1 p2 - kp2 p2 * x_ok ! 3 - kp3 p2 * x_ok ! 8 + kcounter p2 * x_ok ! 14 \<le> 0 \<longrightarrow>
        dx ! 3 = of_bool (0 \<le> x_ok ! 3) *
          (f p2 * kabs p2 * x_ok ! 2 / BW p2 - Fsnc p2 - Et p2 x_ok - k1 p2 * x_ok ! 3
           + k2 p2 * x_ok ! 4)"
    by blast
  from d3 have "dx ! 3 = 1" by (simp add: v q et)
  moreover from dx model_ok [OF h, of 0 act_zero p2 0 0]
  have "dx = snd (model_body x_ok act_zero p2 0 0)" by simp
  ultimately show ?thesis using h e dx by simp
qed

end
